theory Spec2Isabelle
  imports Complex_Main "HOL-Library.List_Lexorder" "HOL-Library.AList"
begin

section \<open>Python strings\<close>

text \<open>
  A Python \<open>str\<close> is a sequence of Unicode code points: \<open>len\<close> counts code points and
  comparison is lexicographic on them. The column names of the program contain code
  points above U+00FF, so a string is a list of code points here.
\<close>

type_synonym ustring = "nat list"

definition ustr :: "string \<Rightarrow> ustring" where
  "ustr s = map of_char s"

text \<open>The code points that \<open>str.strip()\<close> removes (those with \<open>str.isspace\<close>).\<close>

definition is_space :: "nat \<Rightarrow> bool" where
  "is_space c \<longleftrightarrow>
     c \<in> set [9, 10, 11, 12, 13, 28, 29, 30, 31, 32, 133, 160, 5760,
                8232, 8233, 8239, 8287, 12288]
     \<or> (8192 \<le> c \<and> c \<le> 8202)"

definition strip :: "ustring \<Rightarrow> ustring" where
  "strip s = rev (dropWhile is_space (rev (dropWhile is_space s)))"

text \<open>\<open>s.replace(a, b)\<close> for one-character \<open>a\<close> and \<open>b\<close>.\<close>

definition replace :: "nat \<Rightarrow> nat \<Rightarrow> ustring \<Rightarrow> ustring" where
  "replace a b s = map (\<lambda>c. if c = a then b else c) s"

fun join :: "ustring \<Rightarrow> ustring list \<Rightarrow> ustring" where
  "join sep [] = []"
| "join sep [x] = x"
| "join sep (x # y # ys) = x @ sep @ join sep (y # ys)"

definition startswith :: "ustring \<Rightarrow> ustring \<Rightarrow> bool" where
  "startswith s p \<longleftrightarrow> take (length p) s = p"

text \<open>\<open>p in s\<close> on strings: \<open>p\<close> occurs in \<open>s\<close> as a contiguous substring.\<close>

fun contains :: "ustring \<Rightarrow> ustring \<Rightarrow> bool" where
  "contains [] p \<longleftrightarrow> p = []"
| "contains (c # s) p \<longleftrightarrow> startswith (c # s) p \<or> contains s p"

section \<open>Cell values\<close>

text \<open>
  What openpyxl hands over for a cell with \<open>values_only=True\<close>: \<open>None\<close>, a \<open>str\<close>, a
  \<open>datetime\<close>, or another Python value (number, bool, time), which the program only
  tests for truth and turns into text with \<open>str\<close>.
\<close>

record datetime =
  year :: nat
  month :: nat
  day :: nat
  hour :: nat
  minute :: nat
  second :: nat
  microsecond :: nat

datatype raw = RNone | RStr ustring | RDatetime datetime | ROther bool ustring

fun truthy :: "raw \<Rightarrow> bool" where
  "truthy RNone = False"
| "truthy (RStr s) = (s \<noteq> [])"
| "truthy (RDatetime d) = True"
| "truthy (ROther b s) = b"

fun digits :: "nat \<Rightarrow> ustring" where
  "digits n = (if n < 10 then [48 + n] else digits (n div 10) @ [48 + n mod 10])"

declare digits.simps [simp del]

definition zfill :: "nat \<Rightarrow> ustring \<Rightarrow> ustring" where
  "zfill k s = replicate (k - length s) 48 @ s"

text \<open>\<open>d.strftime('%Y-%m-%d')\<close>, the year padded to four digits.\<close>

definition strftime_ymd :: "datetime \<Rightarrow> ustring" where
  "strftime_ymd d =
     zfill 4 (digits (year d)) @ [45] @ zfill 2 (digits (month d)) @ [45]
       @ zfill 2 (digits (day d))"

text \<open>\<open>str(d)\<close> of a datetime: the ISO format with a space as separator.\<close>

definition isoformat :: "datetime \<Rightarrow> ustring" where
  "isoformat d =
     strftime_ymd d @ [32] @ zfill 2 (digits (hour d)) @ [58]
       @ zfill 2 (digits (minute d)) @ [58] @ zfill 2 (digits (second d))
       @ (if microsecond d = 0 then [] else [46] @ zfill 6 (digits (microsecond d)))"

fun py_str :: "raw \<Rightarrow> ustring" where
  "py_str RNone = ustr ''None''"
| "py_str (RStr s) = s"
| "py_str (RDatetime d) = isoformat d"
| "py_str (ROther b s) = s"

definition ERROR_MARKERS :: "ustring list" where
  "ERROR_MARKERS = [ustr ''#VALUE!'', ustr ''#REF!'', ustr ''#N/A'', ustr ''#DIV/0!'']"

definition clean_cell_value :: "raw \<Rightarrow> ustring" where
  "clean_cell_value val =
     (case val of
        RNone \<Rightarrow> []
      | RDatetime d \<Rightarrow> strftime_ymd d
      | _ \<Rightarrow>
          (let v = replace 10 32 (replace 160 32 (strip (py_str val)))
           in if v \<in> set ERROR_MARKERS then [] else v))"

section \<open>Worksheets and header signatures\<close>

text \<open>
  A worksheet as the program reads it through openpyxl: the rows that \<open>iter_rows\<close>
  yields (tuples of cell values) and the \<open>max_row\<close> attribute, which may be \<open>None\<close>.
  \<open>iter_rows ws lo hi\<close> stands for \<open>ws.iter_rows(min_row=lo, max_row=hi)\<close>, rows being
  numbered from 1.
\<close>

record worksheet =
  max_row :: "nat option"
  sheet_rows :: "raw list list"

definition iter_rows :: "worksheet \<Rightarrow> nat \<Rightarrow> nat option \<Rightarrow> raw list list" where
  "iter_rows ws lo hi =
     (case hi of
        None \<Rightarrow> drop (lo - 1) (sheet_rows ws)
      | Some m \<Rightarrow> take (m + 1 - lo) (drop (lo - 1) (sheet_rows ws)))"

definition header_part :: "raw \<Rightarrow> ustring" where
  "header_part v = replace 10 32 (strip (py_str v))"

definition column_name :: "raw list list \<Rightarrow> nat \<Rightarrow> nat \<Rightarrow> ustring" where
  "column_name raw_headers h_rows c_idx =
     (let parts = [header_part (raw_headers ! r_idx ! c_idx).
                     r_idx \<leftarrow> [0..<h_rows],
                     r_idx < length raw_headers \<and> c_idx < length (raw_headers ! r_idx),
                     truthy (raw_headers ! r_idx ! c_idx)]
      in if parts \<noteq> [] then join (ustr '' - '') parts
         else ustr ''Column_'' @ digits (c_idx + 1))"

definition extract_headers :: "worksheet \<Rightarrow> nat \<Rightarrow> ustring list" where
  "extract_headers ws h_rows =
     (let raw_headers = iter_rows ws 1 (Some h_rows)
      in if raw_headers = [] then []
         else map (column_name raw_headers h_rows) [0..<length (hd raw_headers)])"

section \<open>Reading the rows of a sheet\<close>

text \<open>\<open>any(r)\<close> on a tuple of cell values.\<close>

definition any_cell :: "raw list \<Rightarrow> bool" where
  "any_cell r \<longleftrightarrow> list_ex truthy r"

text \<open>The normalized cells of one sheet row, one per column of the signature.\<close>

definition row_data :: "nat \<Rightarrow> raw list \<Rightarrow> ustring list" where
  "row_data n r =
     map (\<lambda>idx. clean_cell_value (if idx < length r then r ! idx else RNone)) [0..<n]"

text \<open>
  The row loop of the initial scan (\<open>worker_process_files\<close>): the state is the set
  \<open>seen_rows\<close> and the list \<open>file_rows\<close>.
\<close>

definition scan_row ::
  "nat \<Rightarrow> ustring \<Rightarrow> ustring list set \<times> ustring list list \<Rightarrow> raw list
     \<Rightarrow> ustring list set \<times> ustring list list" where
  "scan_row n fname st r =
     (if \<not> any_cell r then st
      else let sig_row = row_data n r @ [fname]
           in if sig_row \<in> fst st then st
              else (insert sig_row (fst st), snd st @ [sig_row]))"

definition scan_file_rows :: "nat \<Rightarrow> ustring \<Rightarrow> raw list list \<Rightarrow> ustring list list" where
  "scan_file_rows n fname rs = snd (foldl (scan_row n fname) ({}, []) rs)"

text \<open>The row loop of \<open>finalize_export\<close>: the same, without the set of seen rows.\<close>

definition finalize_row ::
  "nat \<Rightarrow> ustring \<Rightarrow> ustring list list \<Rightarrow> raw list \<Rightarrow> ustring list list" where
  "finalize_row n fname new_rows r =
     (if \<not> any_cell r then new_rows else new_rows @ [row_data n r @ [fname]])"

definition finalize_file_rows ::
  "nat \<Rightarrow> ustring \<Rightarrow> ustring list list \<Rightarrow> raw list list \<Rightarrow> ustring list list" where
  "finalize_file_rows n fname new_rows rs = foldl (finalize_row n fname) new_rows rs"

section \<open>Tables, buckets and source files\<close>

record table =
  cols :: "ustring list"
  rows :: "ustring list list"

text \<open>
  A bucket is the dictionary with the keys \<open>cols\<close>, \<open>rows\<close> and \<open>files\<close>; the key
  \<open>header_rows\<close> is present only in the dictionaries built by the naming dialog.
\<close>

record bucket = table +
  files :: "ustring list"
  header_rows :: "nat option"

record workbook =
  active :: worksheet
  sheets :: "(ustring \<times> worksheet) list"

text \<open>
  A selected file: its path, \<open>os.path.basename\<close> of the path, and what
  \<open>openpyxl.load_workbook\<close> gives for it (\<open>None\<close> when loading raises).
\<close>

record src_file =
  src_path :: ustring
  src_name :: ustring
  content :: "workbook option"

text \<open>
  The exceptions of a run: the two typed errors with the name of the file, an
  \<open>IndexError\<close> of a list read out of range, and \<open>LoadError\<close> for whatever
  \<open>load_workbook\<close> raises.
\<close>

datatype error =
    ColumnMismatchError ustring
  | InvalidTemplateError ustring
  | IndexError
  | LoadError

definition SOURCE_FILE :: ustring where
  "SOURCE_FILE = [128196, 32] @ ustr ''Source File''"

definition SOURCE_SHEET :: ustring where
  "SOURCE_SHEET = [129534, 32] @ ustr ''Source Sheet''"

section \<open>Community mode: sheet tables and the master table\<close>

text \<open>
  \<open>str.lower\<close> follows the Unicode case tables; the functions that call it take it as the
  parameter \<open>lower\<close>.
\<close>

fun first_index :: "('a \<Rightarrow> bool) \<Rightarrow> 'a list \<Rightarrow> nat option" where
  "first_index P [] = None"
| "first_index P (x # xs) = (if P x then Some 0 else map_option Suc (first_index P xs))"

text \<open>The index of the identifier column, \<open>None\<close> for the source's \<open>-1\<close>.\<close>

definition find_sesa_idx :: "(ustring \<Rightarrow> ustring) \<Rightarrow> ustring list \<Rightarrow> nat option" where
  "find_sesa_idx lower cs = first_index (\<lambda>c. lower (strip c) = ustr ''sesa'') cs"

definition REQUIRED :: "ustring list" where
  "REQUIRED = [ustr ''Personal Information'', ustr ''Standards Group'',
               ustr ''Internal Groups'', ustr ''Association'', ustr ''Expertise'']"

definition is_community_workbook :: "(ustring \<Rightarrow> ustring) \<Rightarrow> workbook \<Rightarrow> bool" where
  "is_community_workbook lower wb =
     (let names = map (\<lambda>p. strip (fst p)) (sheets wb)
      in if \<not> (\<forall>r \<in> set REQUIRED. r \<in> set names) then False
         else (\<forall>s \<in> set REQUIRED.
                 (case map_of (sheets wb) s of
                    None \<Rightarrow> False
                  | Some ws \<Rightarrow>
                      (case iter_rows ws 1 (Some 1) of
                         [] \<Rightarrow> False
                       | r # _ \<Rightarrow>
                           ustr ''sesa'' \<in> set [lower (strip (py_str v)). v \<leftarrow> r, v \<noteq> RNone]))))"

text \<open>The columns up to the last one that has a name of its own.\<close>

definition trim_cols :: "ustring list \<Rightarrow> ustring list" where
  "trim_cols cs =
     (let last_idx = foldl (\<lambda>last_idx (i, v).
                    if v \<noteq> [] \<and> \<not> startswith v (ustr ''Column_'') then i + 1
                    else last_idx)
                  0 (enumerate 0 cs)
      in if last_idx > 0 then take last_idx cs else cs)"

definition sheet_row ::
  "nat \<Rightarrow> nat option \<Rightarrow> ustring \<Rightarrow> ustring
     \<Rightarrow> ustring list set \<times> ustring list list \<Rightarrow> raw list
     \<Rightarrow> ustring list set \<times> ustring list list" where
  "sheet_row n sesa_idx fname sheet_name st r =
     (if \<not> any_cell r then st
      else let rd = row_data n r
           in if (case sesa_idx of
                    None \<Rightarrow> False
                  | Some i \<Rightarrow> rd ! i = [] \<or> strip (rd ! i) = []) then st
              else let sig = rd @ [fname, sheet_name]
                   in if sig \<in> fst st then st
                      else (insert sig (fst st), snd st @ [sig]))"

definition read_sheet_table ::
  "(ustring \<Rightarrow> ustring) \<Rightarrow> worksheet \<Rightarrow> ustring \<Rightarrow> ustring \<Rightarrow> table" where
  "read_sheet_table lower ws fname sheet_name =
     (let cs = trim_cols (extract_headers ws 1);
          sesa_idx = find_sesa_idx lower cs;
          rs = snd (foldl (sheet_row (length cs) sesa_idx fname sheet_name) ({}, [])
                      (iter_rows ws 2 None))
      in \<lparr>cols = cs @ [SOURCE_FILE, SOURCE_SHEET], rows = rs\<rparr>)"

definition PERSONAL_INFORMATION :: ustring where
  "PERSONAL_INFORMATION = ustr ''Personal Information''"

definition SESA :: ustring where
  "SESA = ustr ''SESA''"

text \<open>\<open>str(r[si]).strip()\<close>; the read raises \<open>IndexError\<close> past the end of the row.\<close>

definition sesa_at :: "nat \<Rightarrow> ustring list \<Rightarrow> error + ustring" where
  "sesa_at si r = (if si < length r then Inr (strip (r ! si)) else Inl IndexError)"

fun collect_sesa :: "nat \<Rightarrow> ustring list list \<Rightarrow> ustring list \<Rightarrow> error + ustring list" where
  "collect_sesa si [] acc = Inr acc"
| "collect_sesa si (r # rs) acc =
     (case sesa_at si r of
        Inl e \<Rightarrow> Inl e
      | Inr s \<Rightarrow> collect_sesa si rs (acc @ [s]))"

text \<open>
  The first loop of \<open>build_master_table\<close>: the identifier values of every table that
  has an identifier column, in the order read.
\<close>

fun collect_all_sesa ::
  "(ustring \<Rightarrow> ustring) \<Rightarrow> (ustring \<times> table) list \<Rightarrow> ustring list \<Rightarrow> error + ustring list" where
  "collect_all_sesa lower [] acc = Inr acc"
| "collect_all_sesa lower ((sheet, t) # ts) acc =
     (case find_sesa_idx lower (cols t) of
        None \<Rightarrow> collect_all_sesa lower ts acc
      | Some si \<Rightarrow>
          (case collect_sesa si (rows t) acc of
             Inl e \<Rightarrow> Inl e
           | Inr acc' \<Rightarrow> collect_all_sesa lower ts acc'))"

text \<open>The composite string of one row of a topic sheet.\<close>

definition entry_of :: "nat \<Rightarrow> nat \<Rightarrow> ustring list \<Rightarrow> ustring" where
  "entry_of n_biz si r =
     join (ustr '' | '')
       [strip (r ! j). j \<leftarrow> [0..<n_biz], j \<noteq> si,
          j < length r \<and> r ! j \<noteq> [] \<and> strip (r ! j) \<noteq> []]"

text \<open>
  The dictionary \<open>m\<close> of one topic sheet: for an identifier, the set of its entries,
  kept as a list without duplicates. The reads \<open>r[si]\<close> here and in \<open>base_map\<close> repeat
  those of the first loop, which has raised already if one is out of range.
\<close>

definition add_entry ::
  "nat \<Rightarrow> nat \<Rightarrow> (ustring \<rightharpoonup> ustring list) \<Rightarrow> ustring list \<Rightarrow> (ustring \<rightharpoonup> ustring list)" where
  "add_entry n_biz si m r =
     (let sesa = strip (r ! si); entry = entry_of n_biz si r
      in if entry = [] then m
         else m(sesa \<mapsto> List.insert entry (case m sesa of None \<Rightarrow> [] | Some es \<Rightarrow> es)))"

definition biz_cols :: "ustring list \<Rightarrow> ustring list" where
  "biz_cols cs = [c \<leftarrow> cs. c \<notin> set [SOURCE_FILE, SOURCE_SHEET]]"

definition agg_map :: "nat \<Rightarrow> table \<Rightarrow> (ustring \<rightharpoonup> ustring)" where
  "agg_map si t =
     (let m = foldl (add_entry (length (biz_cols (cols t))) si) Map.empty (rows t)
      in (\<lambda>k. map_option (\<lambda>v. join (ustr ''; '') (sort v)) (m k)))"

text \<open>
  The loop over the sheets that fills \<open>agg_cols\<close> and \<open>agg_maps\<close>, as one list of
  pairs in the order of \<open>agg_cols\<close>; a later sheet of the same output name replaces the
  map and adds the name again.
\<close>

fun aggregates ::
  "(ustring \<Rightarrow> ustring) \<Rightarrow> (ustring \<times> table) list
     \<Rightarrow> ustring list \<times> (ustring \<times> (ustring \<rightharpoonup> ustring)) list
     \<Rightarrow> ustring list \<times> (ustring \<times> (ustring \<rightharpoonup> ustring)) list" where
  "aggregates lower [] acc = acc"
| "aggregates lower ((sheet, t) # ts) (agg_cols, agg_maps) =
     (if sheet = PERSONAL_INFORMATION then aggregates lower ts (agg_cols, agg_maps)
      else case find_sesa_idx lower (cols t) of
             None \<Rightarrow> aggregates lower ts (agg_cols, agg_maps)
           | Some si \<Rightarrow>
               (let out_col = sheet @ ustr '' - Entries''
                in aggregates lower ts
                     (agg_cols @ [out_col], AList.update out_col (agg_map si t) agg_maps)))"

definition master_row ::
  "ustring list \<Rightarrow> (ustring \<rightharpoonup> ustring list) \<Rightarrow> nat option \<Rightarrow> ustring list
     \<Rightarrow> (ustring \<times> (ustring \<rightharpoonup> ustring)) list \<Rightarrow> ustring \<Rightarrow> ustring list" where
  "master_row base_cols base_map out_sesa_idx agg_cols agg_maps sesa =
     (let row =
            (case base_map sesa of
               Some r \<Rightarrow> r @ replicate (length base_cols - length r) []
             | None \<Rightarrow>
                 (let row = replicate (length base_cols) []
                  in case out_sesa_idx of
                       None \<Rightarrow> row
                     | Some i \<Rightarrow> if i < length row then row[i := sesa] else [sesa] @ row))
      in row @ map (\<lambda>c. case map_of agg_maps c of
                           None \<Rightarrow> []
                         | Some m \<Rightarrow> (case m sesa of None \<Rightarrow> [] | Some v \<Rightarrow> v)) agg_cols)"

definition build_master_table ::
  "(ustring \<Rightarrow> ustring) \<Rightarrow> (ustring \<times> table) list \<Rightarrow> error + table" where
  "build_master_table lower tables_by_sheet =
     (case collect_all_sesa lower tables_by_sheet [] of
        Inl e \<Rightarrow> Inl e
      | Inr seen \<Rightarrow>
          (let all_sesa = sort (remdups [s \<leftarrow> seen. s \<noteq> []]);
               base = map_of tables_by_sheet PERSONAL_INFORMATION;
               base_cols = (case base of Some b \<Rightarrow> cols b | None \<Rightarrow> [SESA]);
               base_sesa_idx = find_sesa_idx lower base_cols;
               base_map =
                 (case (base, base_sesa_idx) of
                    (Some b, Some i) \<Rightarrow>
                      foldl (\<lambda>m r. m(strip (r ! i) \<mapsto> r)) Map.empty (rows b)
                  | _ \<Rightarrow> Map.empty);
               (agg_cols, agg_maps) = aggregates lower tables_by_sheet ([], []);
               final_cols0 =
                 (if find_sesa_idx lower base_cols = None then SESA # base_cols
                  else base_cols);
               final_cols =
                 foldl (\<lambda>fc c. if c \<in> set fc then fc else fc @ [c]) final_cols0 agg_cols;
               out_sesa_idx = find_sesa_idx lower final_cols
           in Inr \<lparr>cols = final_cols,
                   rows = map (master_row base_cols base_map out_sesa_idx agg_cols agg_maps)
                            all_sesa\<rparr>))"

section \<open>Entity canonicalizer\<close>

text \<open>
  \<open>run_fuzzy_logic\<close> relies on functions from outside the program, which are
  parameters here: \<open>lower\<close> for \<open>str.lower\<close>, \<open>ratio\<close> for
  \<open>rapidfuzz.fuzz.token_sort_ratio\<close> (a number from 0 to 100), \<open>set_list\<close> for
  \<open>list(set(xs))\<close>, whose order Python does not fix, and \<open>fmul\<close> for the product of
  two floating-point numbers, which is rounded: \<open>0.85 * 100\<close> is \<open>85.0\<close>, but
  \<open>0.55 * 100\<close> is \<open>55.00000000000001\<close>. A floating-point number is the real number
  it stands for; comparing two of them is exact. The loops take \<open>rf_threshold\<close>, the
  product as the program computed it.
\<close>

definition SCHNEIDER_ELECTRIC :: ustring where
  "SCHNEIDER_ELECTRIC = ustr ''Schneider Electric''"

text \<open>The test \<open>"schneider" in x or x in ["se", "s.e."]\<close> on a lower-cased value.\<close>

definition is_brand :: "ustring \<Rightarrow> bool" where
  "is_brand x \<longleftrightarrow> contains x (ustr ''schneider'') \<or> x \<in> set [ustr ''se'', ustr ''s.e.'']"

text \<open>One pass of the inner loop, for \<open>long_val\<close>.\<close>

definition fuzzy_inner ::
  "(ustring \<Rightarrow> ustring) \<Rightarrow> (ustring \<Rightarrow> ustring \<Rightarrow> real) \<Rightarrow> real \<Rightarrow> ustring
     \<Rightarrow> (ustring \<rightharpoonup> ustring) \<Rightarrow> ustring \<Rightarrow> (ustring \<rightharpoonup> ustring)" where
  "fuzzy_inner lower ratio rf_threshold short_val mapping long_val =
     (if mapping long_val \<noteq> None then mapping
      else let s_lower = lower short_val; l_lower = lower long_val
           in if is_brand l_lower then mapping(long_val \<mapsto> SCHNEIDER_ELECTRIC)
              else if startswith l_lower s_lower then mapping(long_val \<mapsto> short_val)
              else if real (length short_val) / real (length long_val) < 0.6 then mapping
              else if ratio s_lower l_lower \<ge> rf_threshold
                   then mapping(long_val \<mapsto> short_val)
                   else mapping)"

text \<open>
  The outer loop over \<open>unique_vals\<close>: the values after \<open>short_val\<close> are
  \<open>unique_vals[i+1:]\<close>.
\<close>

fun fuzzy_outer ::
  "(ustring \<Rightarrow> ustring) \<Rightarrow> (ustring \<Rightarrow> ustring \<Rightarrow> real) \<Rightarrow> real \<Rightarrow> ustring list
     \<Rightarrow> (ustring \<rightharpoonup> ustring) \<Rightarrow> (ustring \<rightharpoonup> ustring)" where
  "fuzzy_outer lower ratio rf_threshold [] mapping = mapping"
| "fuzzy_outer lower ratio rf_threshold (short_val # later) mapping =
     (if is_brand (lower short_val)
      then fuzzy_outer lower ratio rf_threshold later (mapping(short_val \<mapsto> SCHNEIDER_ELECTRIC))
      else if mapping short_val \<noteq> None
      then fuzzy_outer lower ratio rf_threshold later mapping
      else if length short_val < 2
      then fuzzy_outer lower ratio rf_threshold later (mapping(short_val \<mapsto> short_val))
      else fuzzy_outer lower ratio rf_threshold later
             (foldl (fuzzy_inner lower ratio rf_threshold short_val)
                (mapping(short_val \<mapsto> short_val)) later))"

definition rewrite_row ::
  "nat \<Rightarrow> (ustring \<rightharpoonup> ustring) \<Rightarrow> ustring list \<Rightarrow> ustring list" where
  "rewrite_row col_idx mapping r =
     (let orig = strip (r ! col_idx)
      in case mapping orig of
           None \<Rightarrow> r
         | Some c \<Rightarrow> if c \<noteq> orig then r[col_idx := c] else r)"

text \<open>
  The rows after grouping (the source rewrites them in place). Every row is read at
  \<open>col_idx\<close>, which raises \<open>IndexError\<close> on a row that is too short.
\<close>

definition run_fuzzy_logic ::
  "(ustring \<Rightarrow> ustring) \<Rightarrow> (ustring \<Rightarrow> ustring \<Rightarrow> real) \<Rightarrow> (ustring list \<Rightarrow> ustring list)
     \<Rightarrow> (real \<Rightarrow> real \<Rightarrow> real)
     \<Rightarrow> ustring list list \<Rightarrow> ustring list \<Rightarrow> real \<Rightarrow> ustring
     \<Rightarrow> error + ustring list list" where
  "run_fuzzy_logic lower ratio set_list fmul rs headers threshold target_col_name =
     (let target = lower target_col_name
      in case first_index (\<lambda>h. contains h target) (map lower headers) of
           None \<Rightarrow> Inr rs
         | Some col_idx \<Rightarrow>
             if \<exists>r \<in> set rs. col_idx \<ge> length r then Inl IndexError
             else
               (let rf_threshold = fmul threshold 100;
                    unique_vals =
                      sort_key length
                        (set_list [strip (r ! col_idx). r \<leftarrow> rs,
                                     r ! col_idx \<noteq> [] \<and> strip (r ! col_idx) \<noteq> []]);
                    mapping = fuzzy_outer lower ratio rf_threshold unique_vals Map.empty
                in Inr (map (rewrite_row col_idx mapping) rs)))"

section \<open>The run: scanning, naming and the finalize re-read\<close>

datatype mode = Standard | Normal | Community

text \<open>
  What a run reads from the settings: the mode, the header-row entry after \<open>safe_int\<close>,
  the grouping switch, its threshold and the name of the column to group. The outside
  functions of the canonicalizer travel together.
\<close>

record config =
  curr_mode :: mode
  h_val :: int
  is_fuzzy :: bool
  fuzzy_thresh :: real
  target_col :: ustring

record externals =
  py_lower :: "ustring \<Rightarrow> ustring"
  token_sort_ratio :: "ustring \<Rightarrow> ustring \<Rightarrow> real"
  list_of_set :: "ustring list \<Rightarrow> ustring list"
  float_mul :: "real \<Rightarrow> real \<Rightarrow> real"

text \<open>How a run ends, with the tables handed to the dashboard renderer if it gets there.\<close>

datatype outcome =
    Failed error
  | NoData
  | LimitExceeded
  | AwaitingNaming "(ustring list \<times> bucket) list"
  | Cancelled
  | Dashboard "(ustring \<times> table) list"

definition grouping ::
  "externals \<Rightarrow> config \<Rightarrow> ustring list list \<Rightarrow> ustring list \<Rightarrow> error + ustring list list" where
  "grouping ext cfg rs headers =
     (if is_fuzzy cfg
      then run_fuzzy_logic (py_lower ext) (token_sort_ratio ext) (list_of_set ext)
             (float_mul ext) rs headers (fuzzy_thresh cfg) (target_col cfg)
      else Inr rs)"

record scan_state =
  buckets :: "(ustring list \<times> bucket) list"
  first_sig_standard :: "ustring list option"

text \<open>
  The body of the scanning loop for one file. An exception is re-raised in standard
  mode and swallowed otherwise, the file being skipped.
\<close>

definition scan_file :: "bool \<Rightarrow> nat \<Rightarrow> src_file \<Rightarrow> scan_state \<Rightarrow> error + scan_state" where
  "scan_file is_std h_count f st =
     (case content f of
        None \<Rightarrow> if is_std then Inl LoadError else Inr st
      | Some wb \<Rightarrow>
          (let ws = active wb
           in if (case max_row ws of None \<Rightarrow> False | Some m \<Rightarrow> m < h_count) then Inr st
              else
                (let local_cols = extract_headers ws h_count
                 in if local_cols = [] then Inr st
                    else if is_std \<and> first_sig_standard st \<noteq> None
                              \<and> first_sig_standard st \<noteq> Some local_cols
                    then Inl (ColumnMismatchError (src_name f))
                    else
                      (let first_sig =
                             (if is_std \<and> first_sig_standard st = None then Some local_cols
                              else first_sig_standard st);
                           b0 = (if map_of (buckets st) local_cols = None
                                 then AList.update local_cols
                                        \<lparr>cols = local_cols, rows = [], files = [],
                                         header_rows = None\<rparr> (buckets st)
                                 else buckets st);
                           b1 = AList.map_entry local_cols
                                  (\<lambda>b. b\<lparr>files := files b @ [src_path f]\<rparr>) b0;
                           file_rows = scan_file_rows (length local_cols) (src_name f)
                                         (iter_rows ws (h_count + 1) None);
                           b2 = AList.map_entry local_cols
                                  (\<lambda>b. b\<lparr>rows := rows b @ file_rows\<rparr>) b1
                       in Inr \<lparr>buckets = b2, first_sig_standard = first_sig\<rparr>))))"

text \<open>
  The loop over the files, with the names of the files it has started to read (one
  \<open>Reading ...\<close> log line each).
\<close>

fun scan_files ::
  "bool \<Rightarrow> nat \<Rightarrow> src_file list \<Rightarrow> scan_state \<Rightarrow> ustring list
     \<Rightarrow> (error + scan_state) \<times> ustring list" where
  "scan_files is_std h_count [] st started = (Inr st, started)"
| "scan_files is_std h_count (f # fs) st started =
     (case scan_file is_std h_count f st of
        Inl e \<Rightarrow> (Inl e, started @ [src_name f])
      | Inr st' \<Rightarrow> scan_files is_std h_count fs st' (started @ [src_name f]))"

fun map_err :: "('a \<Rightarrow> error + 'b) \<Rightarrow> 'a list \<Rightarrow> error + 'b list" where
  "map_err g [] = Inr []"
| "map_err g (x # xs) =
     (case g x of
        Inl e \<Rightarrow> Inl e
      | Inr y \<Rightarrow> (case map_err g xs of Inl e \<Rightarrow> Inl e | Inr ys \<Rightarrow> Inr (y # ys)))"

fun fold_err :: "('s \<Rightarrow> 'a \<Rightarrow> error + 's) \<Rightarrow> 's \<Rightarrow> 'a list \<Rightarrow> error + 's" where
  "fold_err g st [] = Inr st"
| "fold_err g st (x # xs) =
     (case g st x of Inl e \<Rightarrow> Inl e | Inr st' \<Rightarrow> fold_err g st' xs)"

text \<open>\<open>openpyxl.load_workbook(fpath)\<close> on the files of the run, with the file's base name.\<close>

definition load_workbook :: "src_file list \<Rightarrow> ustring \<Rightarrow> error + workbook \<times> ustring" where
  "load_workbook disk p =
     (case find (\<lambda>f. src_path f = p) disk of
        None \<Rightarrow> Inl LoadError
      | Some f \<Rightarrow> (case content f of None \<Rightarrow> Inl LoadError | Some wb \<Rightarrow> Inr (wb, src_name f)))"

text \<open>The body of the file loop of \<open>finalize_export\<close>; the state is \<open>(new_cols, new_rows)\<close>.\<close>

definition finalize_file ::
  "src_file list \<Rightarrow> nat \<Rightarrow> ustring list option \<times> ustring list list \<Rightarrow> ustring
     \<Rightarrow> error + ustring list option \<times> ustring list list" where
  "finalize_file disk h_count st p =
     (case load_workbook disk p of
        Inl e \<Rightarrow> Inl e
      | Inr (wb, fname) \<Rightarrow>
          (let ws = active wb; local_cols = extract_headers ws h_count
           in if local_cols = [] then Inr st
              else Inr (if fst st = None then Some local_cols else fst st,
                        finalize_file_rows (length local_cols) fname (snd st)
                          (iter_rows ws (h_count + 1) None))))"

text \<open>\<open>safe_int(data.get("header_rows"), 1)\<close>: a missing key gives the default 1.\<close>

definition finalize_h_count :: "bucket \<Rightarrow> nat" where
  "finalize_h_count data = (case header_rows data of None \<Rightarrow> 1 | Some h \<Rightarrow> h)"

definition rebuild ::
  "externals \<Rightarrow> config \<Rightarrow> src_file list \<Rightarrow> ustring \<times> bucket \<Rightarrow> error + ustring \<times> table" where
  "rebuild ext cfg disk nb =
     (let h_count = finalize_h_count (snd nb)
      in case fold_err (finalize_file disk h_count) (None, []) (files (snd nb)) of
           Inl e \<Rightarrow> Inl e
         | Inr (new_cols, new_rows) \<Rightarrow>
             (let cs = (case new_cols of None \<Rightarrow> [] | Some c \<Rightarrow> c)
              in case grouping ext cfg new_rows cs of
                   Inl e \<Rightarrow> Inl e
                 | Inr rs \<Rightarrow> Inr (fst nb, \<lparr>cols = cs, rows = rs\<rparr>)))"

definition finalize_export ::
  "externals \<Rightarrow> config \<Rightarrow> src_file list \<Rightarrow> (ustring \<times> bucket) list \<Rightarrow> outcome" where
  "finalize_export ext cfg disk named_buckets =
     (if named_buckets = [] then Cancelled
      else case map_err (rebuild ext cfg disk) named_buckets of
             Inl e \<Rightarrow> Failed e
           | Inr rebuilt \<Rightarrow> Dashboard rebuilt)"

definition auto_named :: "(ustring list \<times> bucket) list \<Rightarrow> (ustring \<times> bucket) list" where
  "auto_named bs =
     foldl (\<lambda>named_buckets (sig, data).
              AList.update (if length bs = 1 then ustr ''Main Table'' else ustr ''Data'')
                data named_buckets) [] bs"

definition prompt_table_names ::
  "externals \<Rightarrow> config \<Rightarrow> src_file list \<Rightarrow> (ustring list \<times> bucket) list \<Rightarrow> outcome" where
  "prompt_table_names ext cfg disk bs =
     (if length bs > 15 then LimitExceeded
      else if curr_mode cfg = Standard \<or> length bs = 1
      then finalize_export ext cfg disk (auto_named bs)
      else AwaitingNaming bs)"

text \<open>The community pipeline: every file must be a template, each required sheet is read.\<close>

definition add_sheet ::
  "(ustring \<Rightarrow> ustring) \<Rightarrow> workbook \<Rightarrow> ustring \<Rightarrow> (ustring \<times> table) list \<Rightarrow> ustring
     \<Rightarrow> error + (ustring \<times> table) list" where
  "add_sheet lower wb fname tables_by_sheet sheet_name =
     (case map_of (sheets wb) sheet_name of
        None \<Rightarrow> Inl LoadError
      | Some ws \<Rightarrow>
          (let t = read_sheet_table lower ws fname sheet_name;
               t0 = (if map_of tables_by_sheet sheet_name = None
                     then AList.update sheet_name \<lparr>cols = cols t, rows = []\<rparr> tables_by_sheet
                     else tables_by_sheet)
           in Inr (AList.map_entry sheet_name (\<lambda>x. x\<lparr>rows := rows x @ rows t\<rparr>) t0)))"

definition read_template ::
  "(ustring \<Rightarrow> ustring) \<Rightarrow> (ustring \<times> table) list \<Rightarrow> src_file
     \<Rightarrow> error + (ustring \<times> table) list" where
  "read_template lower tables_by_sheet f =
     (case content f of
        None \<Rightarrow> Inl LoadError
      | Some wb \<Rightarrow>
          if \<not> is_community_workbook lower wb then Inl (InvalidTemplateError (src_name f))
          else fold_err (add_sheet lower wb (src_name f)) tables_by_sheet REQUIRED)"

definition unique_rows :: "ustring list list \<Rightarrow> ustring list list" where
  "unique_rows rs =
     snd (foldl (\<lambda>(seen, out) r. if r \<in> seen then (seen, out) else (insert r seen, out @ [r]))
            ({}, []) rs)"

definition community_mode :: "externals \<Rightarrow> src_file list \<Rightarrow> outcome" where
  "community_mode ext target_files =
     (case fold_err (read_template (py_lower ext)) [] target_files of
        Inl e \<Rightarrow> Failed e
      | Inr tables_by_sheet \<Rightarrow>
          if tables_by_sheet = [] then NoData
          else
            (let ts = map (\<lambda>(k, t). (k, t\<lparr>rows := unique_rows (rows t)\<rparr>)) tables_by_sheet
             in case build_master_table (py_lower ext) ts of
                  Inl e \<Rightarrow> Failed e
                | Inr master \<Rightarrow> Dashboard (AList.update (ustr ''Community Master'') master ts)))"

definition worker_process_files :: "externals \<Rightarrow> config \<Rightarrow> src_file list \<Rightarrow> outcome" where
  "worker_process_files ext cfg target_files =
     (if curr_mode cfg = Community then community_mode ext target_files
      else
        (let is_std = (curr_mode cfg = Standard);
             h_count = (if \<not> is_std \<and> h_val cfg > 0 then nat (h_val cfg) else 1);
             sorted_files = sort_key src_path target_files
         in case fst (scan_files is_std h_count sorted_files
                        \<lparr>buckets = [], first_sig_standard = None\<rparr> []) of
              Inl e \<Rightarrow> Failed e
            | Inr st \<Rightarrow>
                if buckets st = [] then NoData
                else
                  (case map_err (\<lambda>(sig, b).
                           case grouping ext cfg (rows b) (cols b) of
                             Inl e \<Rightarrow> Inl e
                           | Inr rs \<Rightarrow> Inr (sig, b\<lparr>rows := rs\<rparr>)) (buckets st) of
                     Inl e \<Rightarrow> Failed e
                   | Inr bs \<Rightarrow> prompt_table_names ext cfg sorted_files bs)))"

section \<open>Notions used in the statements\<close>

text \<open>A string that the normalizer leaves as it is.\<close>

definition clean_text :: "ustring \<Rightarrow> bool" where
  "clean_text s \<longleftrightarrow>
     (s \<noteq> [] \<longrightarrow> \<not> is_space (hd s) \<and> \<not> is_space (last s))
     \<and> 10 \<notin> set s \<and> 160 \<notin> set s \<and> s \<notin> set ERROR_MARKERS"

text \<open>
  The signature that the scan derives from a file, if the file gets as far as the
  signature: it loads, its sheet is not skipped as empty and has a header.
\<close>

definition file_sig :: "nat \<Rightarrow> src_file \<Rightarrow> ustring list option" where
  "file_sig h f =
     (case content f of
        None \<Rightarrow> None
      | Some wb \<Rightarrow>
          if (case max_row (active wb) of None \<Rightarrow> False | Some m \<Rightarrow> m < h) then None
          else (let c = extract_headers (active wb) h in if c = [] then None else Some c))"

definition sigs_of :: "nat \<Rightarrow> src_file list \<Rightarrow> ustring list list" where
  "sigs_of h fs = List.map_filter (file_sig h) fs"

text \<open>No bucket of the list has the key \<open>header_rows\<close>.\<close>

definition no_header_rows :: "('k \<times> bucket) list \<Rightarrow> bool" where
  "no_header_rows bs \<longleftrightarrow> (\<forall>kb \<in> set bs. header_rows (snd kb) = None)"

text \<open>
  The names of the aggregate columns, one for each sheet other than the base sheet
  that has an identifier column, in the order of the sheets.
\<close>

definition agg_names :: "(ustring \<Rightarrow> ustring) \<Rightarrow> (ustring \<times> table) list \<Rightarrow> ustring list" where
  "agg_names lower ts =
     [fst p @ ustr '' - Entries''. p \<leftarrow> ts, fst p \<noteq> PERSONAL_INFORMATION,
        find_sesa_idx lower (cols (snd p)) \<noteq> None]"



section \<open>Example inputs\<close>

text \<open>
  Workbooks with one sheet of text cells, an ASCII stand-in for \<open>str.lower\<close> and a
  run configuration with grouping switched off, for the concrete runs below; the
  outside functions of the canonicalizer are fixed somehow, the runs never call them.
\<close>

definition ex_lower :: "ustring \<Rightarrow> ustring" where
  "ex_lower s = map (\<lambda>c. if 65 \<le> c \<and> c \<le> 90 then c + 32 else c) s"

definition ex_ext :: externals where
  "ex_ext = \<lparr>py_lower = ex_lower, token_sort_ratio = (\<lambda>a b. 0), list_of_set = remdups,
             float_mul = (\<lambda>a b. a * b)\<rparr>"

definition ex_wb :: "string list \<Rightarrow> string list list \<Rightarrow> workbook" where
  "ex_wb hdr rs =
     \<lparr>active = \<lparr>max_row = Some (Suc (length rs)),
                 sheet_rows = map (map (\<lambda>x. RStr (ustr x))) (hdr # rs)\<rparr>,
      sheets = []\<rparr>"

definition ex_file :: "string \<Rightarrow> workbook \<Rightarrow> src_file" where
  "ex_file n wb = \<lparr>src_path = ustr n, src_name = ustr n, content = Some wb\<rparr>"

definition ex_cfg :: "mode \<Rightarrow> int \<Rightarrow> config" where
  "ex_cfg m h = \<lparr>curr_mode = m, h_val = h, is_fuzzy = False, fuzzy_thresh = 0.85,
                 target_col = ustr ''Company''\<rparr>"

definition fa :: src_file where
  "fa = ex_file ''a.xlsx'' (ex_wb [''Name'', ''Role''] [[''Ann'', ''Chair'']])"
definition fb :: src_file where
  "fb = ex_file ''b.xlsx'' (ex_wb [''Name'', ''Job''] [[''Bo'', ''Member'']])"
definition fc :: src_file where
  "fc = ex_file ''c.xlsx'' (ex_wb [''Name'', ''Role''] [[''Cy'', ''Member'']])"

definition fd :: src_file where
  "fd = ex_file ''d.xlsx'' (ex_wb [''Name''] [[''Ann''], [''Ann'']])"

definition fe :: src_file where
  "fe = ex_file ''e.xlsx'' (ex_wb [''Name''] [[''#N/A'']])"

definition fh :: src_file where
  "fh = ex_file ''h.xlsx'' (ex_wb [''A''] [[''x''], [''1'']])"

text \<open>
  A community template with two people in the base sheet, one of them with an entry
  in two topic sheets; the tables read from it and the master table built from them.
\<close>

definition ex_sheet :: "string list \<Rightarrow> string list list \<Rightarrow> worksheet" where
  "ex_sheet hdr rs =
     \<lparr>max_row = Some (Suc (length rs)), sheet_rows = map (map (\<lambda>x. RStr (ustr x))) (hdr # rs)\<rparr>"

definition ex_template :: workbook where
  "ex_template =
     \<lparr>active = ex_sheet [''SESA'', ''Name''] [[''A'', ''Ann''], [''B'', ''Bo'']],
      sheets =
        [(ustr ''Personal Information'',
            ex_sheet [''SESA'', ''Name''] [[''A'', ''Ann''], [''B'', ''Bo'']]),
         (ustr ''Standards Group'', ex_sheet [''SESA'', ''Group''] [[''A'', ''G1'']]),
         (ustr ''Internal Groups'', ex_sheet [''SESA'', ''Team''] []),
         (ustr ''Association'', ex_sheet [''SESA'', ''Org''] []),
         (ustr ''Expertise'', ex_sheet [''SESA'', ''Skill''] [[''A'', ''Py'']])]\<rparr>"

definition ex_tables :: "(ustring \<times> table) list" where
  "ex_tables =
     [(ustr ''Personal Information'',
         \<lparr>cols = [ustr ''SESA'', ustr ''Name'', SOURCE_FILE, SOURCE_SHEET],
          rows = [[ustr ''A'', ustr ''Ann'', ustr ''t.xlsx'', ustr ''Personal Information''],
                  [ustr ''B'', ustr ''Bo'', ustr ''t.xlsx'', ustr ''Personal Information'']]\<rparr>),
      (ustr ''Standards Group'',
         \<lparr>cols = [ustr ''SESA'', ustr ''Group'', SOURCE_FILE, SOURCE_SHEET],
          rows = [[ustr ''A'', ustr ''G1'', ustr ''t.xlsx'', ustr ''Standards Group'']]\<rparr>),
      (ustr ''Internal Groups'',
         \<lparr>cols = [ustr ''SESA'', ustr ''Team'', SOURCE_FILE, SOURCE_SHEET], rows = []\<rparr>),
      (ustr ''Association'',
         \<lparr>cols = [ustr ''SESA'', ustr ''Org'', SOURCE_FILE, SOURCE_SHEET], rows = []\<rparr>),
      (ustr ''Expertise'',
         \<lparr>cols = [ustr ''SESA'', ustr ''Skill'', SOURCE_FILE, SOURCE_SHEET],
          rows = [[ustr ''A'', ustr ''Py'', ustr ''t.xlsx'', ustr ''Expertise'']]\<rparr>)]"

definition ex_master :: table where
  "ex_master =
     \<lparr>cols = [ustr ''SESA'', ustr ''Name'', SOURCE_FILE, SOURCE_SHEET,
              ustr ''Standards Group - Entries'', ustr ''Internal Groups - Entries'',
              ustr ''Association - Entries'', ustr ''Expertise - Entries''],
      rows = [[ustr ''A'', ustr ''Ann'', ustr ''t.xlsx'', ustr ''Personal Information'',
               ustr ''G1'', [], [], ustr ''Py''],
              [ustr ''B'', ustr ''Bo'', ustr ''t.xlsx'', ustr ''Personal Information'',
               [], [], [], []]]\<rparr>"

section \<open>Properties of the cell normalizer\<close>

lemma strip_Nil: "strip [] = []"
  by (simp add: strip_def)

lemma strip_ends:
  assumes "strip s \<noteq> []"
  shows "\<not> is_space (hd (strip s))" and "\<not> is_space (last (strip s))"
proof -
  let ?t = "dropWhile is_space s"
  let ?r = "dropWhile is_space (rev ?t)"
  from assms have r: "?r \<noteq> []" by (simp add: strip_def)
  then have t: "?t \<noteq> []" by (auto dest: set_dropWhileD)
  have "\<not> is_space (hd ?r)" using r by (rule hd_dropWhile)
  then show "\<not> is_space (last (strip s))"
    using r by (simp add: strip_def last_rev)
  have "hd (rev ?r) = hd ?t"
  proof -
    obtain ys where ys: "rev ?t = ys @ ?r"
      by (metis takeWhile_dropWhile_id)
    then have "?t = rev ?r @ rev ys" by (metis rev_append rev_rev_ident)
    then show ?thesis using r by (metis hd_append2 rev_is_Nil_conv)
  qed
  moreover have "\<not> is_space (hd ?t)" using t by (rule hd_dropWhile)
  ultimately show "\<not> is_space (hd (strip s))" by (simp add: strip_def)
qed

lemma dropWhile_hd: "xs \<noteq> [] \<Longrightarrow> \<not> P (hd xs) \<Longrightarrow> dropWhile P xs = xs"
  by (cases xs) auto

lemma strip_fixed:
  assumes "s \<noteq> [] \<Longrightarrow> \<not> is_space (hd s) \<and> \<not> is_space (last s)"
  shows "strip s = s"
proof (cases s)
  case Nil
  then show ?thesis by (simp add: strip_def)
next
  case (Cons c cs)
  with assms have h: "\<not> is_space (hd s)" and l: "\<not> is_space (last s)" by auto
  from h Cons have "dropWhile is_space s = s" by simp
  moreover have "dropWhile is_space (rev s) = rev s"
  proof (rule dropWhile_hd)
    show "rev s \<noteq> []" using Cons by simp
    show "\<not> is_space (hd (rev s))" using l by (simp add: hd_rev)
  qed
  ultimately show ?thesis by (simp add: strip_def)
qed


lemma replace_absent: "a \<notin> set s \<Longrightarrow> replace a b s = s"
  by (induction s) (auto simp: replace_def)

lemma replace_removes: "a \<noteq> b \<Longrightarrow> a \<notin> set (replace a b s)"
  by (auto simp: replace_def)

lemma replace_keeps_absent: "c \<notin> set s \<Longrightarrow> c \<noteq> b \<Longrightarrow> c \<notin> set (replace a b s)"
  by (auto simp: replace_def)

lemma replace_hd: "s \<noteq> [] \<Longrightarrow> hd s \<noteq> a \<Longrightarrow> hd (replace a b s) = hd s"
  by (cases s) (auto simp: replace_def)

lemma replace_last: "s \<noteq> [] \<Longrightarrow> last s \<noteq> a \<Longrightarrow> last (replace a b s) = last s"
  by (induction s) (auto simp: replace_def)

lemma replace_Nil_iff: "replace a b s = [] \<longleftrightarrow> s = []"
  by (simp add: replace_def)

lemma is_space_10: "is_space 10" and is_space_160: "is_space 160"
  by (simp_all add: is_space_def)

lemma clean_text_fixed: "clean_text s \<Longrightarrow> clean_cell_value (RStr s) = s"
  by (simp add: clean_text_def clean_cell_value_def strip_fixed replace_absent)

lemma clean_text_Nil: "clean_text []"
  by (simp add: clean_text_def ERROR_MARKERS_def ustr_def)

lemma normalized_text_clean:
  fixes s :: ustring
  defines "v \<equiv> replace 10 32 (replace 160 32 (strip s))"
  assumes "v \<notin> set ERROR_MARKERS"
  shows "clean_text v"
proof -
  let ?t = "strip s"
  have ends: "v \<noteq> [] \<longrightarrow> \<not> is_space (hd v) \<and> \<not> is_space (last v)"
  proof
    assume "v \<noteq> []"
    then have t: "?t \<noteq> []" by (simp add: v_def replace_Nil_iff)
    have h: "\<not> is_space (hd ?t)" and l: "\<not> is_space (last ?t)"
      using strip_ends [OF t] by auto
    from h l have h1: "hd ?t \<noteq> 160" "hd ?t \<noteq> 10" and l1: "last ?t \<noteq> 160" "last ?t \<noteq> 10"
      using is_space_10 is_space_160 by auto
    have "hd v = hd ?t"
      using t h1 by (simp add: v_def replace_hd replace_Nil_iff)
    moreover have "last v = last ?t"
      using t l1 by (simp add: v_def replace_last replace_Nil_iff)
    ultimately show "\<not> is_space (hd v) \<and> \<not> is_space (last v)"
      using h l by simp
  qed
  have "10 \<notin> set v" by (simp add: v_def replace_removes)
  moreover have "160 \<notin> set v"
    by (simp add: v_def replace_removes replace_keeps_absent)
  ultimately show ?thesis using ends assms(2) by (simp add: clean_text_def)
qed

lemma digits_range: "c \<in> set (digits n) \<Longrightarrow> 48 \<le> c \<and> c \<le> 57"
proof (induction n rule: digits.induct)
  case (1 n)
  then show ?case
    by (subst (asm) (2) digits.simps) (auto split: if_splits)
qed

lemma zfill_digits_range: "c \<in> set (zfill k (digits n)) \<Longrightarrow> 48 \<le> c \<and> c \<le> 57"
  by (auto simp: zfill_def dest: digits_range)

lemma strftime_ymd_range: "c \<in> set (strftime_ymd d) \<Longrightarrow> 45 \<le> c \<and> c \<le> 57"
  by (auto simp: strftime_ymd_def dest!: zfill_digits_range)

lemma strftime_ymd_clean: "clean_text (strftime_ymd d)"
proof -
  let ?s = "strftime_ymd d"
  have ne: "?s \<noteq> []" by (simp add: strftime_ymd_def)
  have r: "\<And>c. c \<in> set ?s \<Longrightarrow> 45 \<le> c \<and> c \<le> 57" by (rule strftime_ymd_range)
  have nsp: "\<And>c. c \<in> set ?s \<Longrightarrow> \<not> is_space c"
    using r by (fastforce simp: is_space_def)
  have "hd ?s \<in> set ?s" "last ?s \<in> set ?s" using ne by simp_all
  then have "\<not> is_space (hd ?s)" "\<not> is_space (last ?s)" using nsp by blast+
  moreover have "10 \<notin> set ?s" "160 \<notin> set ?s" using r by fastforce+
  moreover have "?s \<notin> set ERROR_MARKERS"
  proof
    assume "?s \<in> set ERROR_MARKERS"
    then have "35 \<in> set ?s" by (auto simp: ERROR_MARKERS_def ustr_def)
    then show False using r by fastforce
  qed
  ultimately show ?thesis by (simp add: clean_text_def)
qed

lemma clean_cell_value_clean: "clean_text (clean_cell_value val)"
proof (cases val)
  case RNone
  then show ?thesis by (simp add: clean_cell_value_def clean_text_Nil)
next
  case (RDatetime d)
  then show ?thesis by (simp add: clean_cell_value_def strftime_ymd_clean)
next
  case (RStr s)
  then show ?thesis
    using normalized_text_clean [of s]
    by (simp add: clean_cell_value_def Let_def clean_text_Nil)
next
  case (ROther b s)
  then show ?thesis
    using normalized_text_clean [of s]
    by (simp add: clean_cell_value_def Let_def clean_text_Nil)
qed

text \<open>
  Claim C7. Cell normalization is idempotent: the normalizer, applied to the string it
  returned for any cell value, returns that string unchanged.
\<close>

theorem clean_cell_value_idempotent:
  "clean_cell_value (RStr (clean_cell_value val)) = clean_cell_value val"
  by (rule clean_text_fixed) (rule clean_cell_value_clean)

section \<open>Strict mode\<close>

lemma scan_file_skip:
  "content f \<noteq> None \<Longrightarrow> file_sig h f = None \<Longrightarrow> scan_file is_std h f st = Inr st"
  by (auto simp: scan_file_def file_sig_def Let_def split: option.splits if_splits)

lemma scan_file_first:
  "file_sig h f = Some sig \<Longrightarrow> first_sig_standard st = None \<Longrightarrow>
   \<exists>st'. scan_file True h f st = Inr st' \<and> first_sig_standard st' = Some sig"
  by (auto simp: scan_file_def file_sig_def Let_def split: option.splits if_splits)

lemma scan_file_same:
  "file_sig h f = Some sig \<Longrightarrow> first_sig_standard st = Some sig \<Longrightarrow>
   \<exists>st'. scan_file True h f st = Inr st' \<and> first_sig_standard st' = Some sig"
  by (auto simp: scan_file_def file_sig_def Let_def split: option.splits if_splits)

lemma scan_file_mismatch:
  "file_sig h f = Some sig \<Longrightarrow> first_sig_standard st = Some sig0 \<Longrightarrow> sig \<noteq> sig0 \<Longrightarrow>
   scan_file True h f st = Inl (ColumnMismatchError (src_name f))"
  by (auto simp: scan_file_def file_sig_def Let_def split: option.splits if_splits)

lemma scan_files_prefix:
  assumes "\<forall>g \<in> set pre. content g \<noteq> None"
    and "\<forall>s \<in> set (sigs_of h pre). s = sig0"
    and "first_sig_standard st = None \<or> first_sig_standard st = Some sig0"
  shows "\<exists>st'. scan_files True h (pre @ rest) st started
                 = scan_files True h rest st' (started @ map src_name pre)
              \<and> first_sig_standard st'
                 = (if sigs_of h pre = [] then first_sig_standard st else Some sig0)"
  using assms
proof (induction pre arbitrary: st started)
  case Nil
  have "scan_files True h ([] @ rest) st started
          = scan_files True h rest st (started @ map src_name [])
        \<and> first_sig_standard st
          = (if sigs_of h [] = [] then first_sig_standard st else Some sig0)"
    by (simp add: sigs_of_def List.map_filter_simps)
  then show ?case by blast
next
  case (Cons g pre)
  have loaded: "content g \<noteq> None" using Cons.prems(1) by simp
  show ?case
  proof (cases "file_sig h g")
    case None
    then have step: "scan_file True h g st = Inr st"
      using loaded by (rule_tac scan_file_skip)
    have sg: "sigs_of h (g # pre) = sigs_of h pre"
      using None by (simp add: sigs_of_def List.map_filter_simps)
    obtain st' where
      "scan_files True h (pre @ rest) st (started @ [src_name g])
         = scan_files True h rest st' ((started @ [src_name g]) @ map src_name pre)"
      "first_sig_standard st'
         = (if sigs_of h pre = [] then first_sig_standard st else Some sig0)"
      using Cons.IH [of st "started @ [src_name g]"] Cons.prems sg by auto
    then show ?thesis using step sg by auto
  next
    case (Some sig)
    have sg: "sigs_of h (g # pre) = sig # sigs_of h pre"
      using Some by (simp add: sigs_of_def List.map_filter_simps)
    then have eq: "sig = sig0" using Cons.prems(2) by simp
    obtain st1 where step: "scan_file True h g st = Inr st1"
      and f1: "first_sig_standard st1 = Some sig0"
      using Cons.prems(3) scan_file_first [OF Some] scan_file_same [OF Some] eq by blast
    obtain st' where
      "scan_files True h (pre @ rest) st1 (started @ [src_name g])
         = scan_files True h rest st' ((started @ [src_name g]) @ map src_name pre)"
      "first_sig_standard st'
         = (if sigs_of h pre = [] then first_sig_standard st1 else Some sig0)"
      using Cons.IH [of st1 "started @ [src_name g]"] Cons.prems sg f1 by auto
    then show ?thesis using step sg f1 by auto
  qed
qed

text \<open>
  Claim C1. In standard mode the signature of the first file whose header is read
  becomes the required one; at the first later file whose signature differs the scan
  raises \<open>ColumnMismatchError\<close> for that file, having started no file after it, and
  the run ends as failed, with no table.
\<close>

theorem strict_mode_fail_fast:
  assumes "curr_mode cfg = Standard"
    and "sort_key src_path target_files = pre @ f # post"
    and "\<forall>g \<in> set pre. content g \<noteq> None"
    and "sigs_of 1 pre \<noteq> []"
    and "\<forall>s \<in> set (sigs_of 1 pre). s = hd (sigs_of 1 pre)"
    and "file_sig 1 f = Some sig"
    and "sig \<noteq> hd (sigs_of 1 pre)"
  shows "scan_files True 1 (pre @ f # post) \<lparr>buckets = [], first_sig_standard = None\<rparr> []
           = (Inl (ColumnMismatchError (src_name f)), map src_name pre @ [src_name f])
         \<and> worker_process_files ext cfg target_files
           = Failed (ColumnMismatchError (src_name f))"
proof -
  let ?st0 = "\<lparr>buckets = [], first_sig_standard = None\<rparr>"
  obtain st' where
    pre: "scan_files True 1 (pre @ f # post) ?st0 []
            = scan_files True 1 (f # post) st' ([] @ map src_name pre)"
    and fs: "first_sig_standard st' = Some (hd (sigs_of 1 pre))"
    using scan_files_prefix [of pre 1 "hd (sigs_of 1 pre)" ?st0 "f # post" "[]"] assms(3,4,5)
    by auto
  have "scan_file True 1 f st' = Inl (ColumnMismatchError (src_name f))"
    using assms(6) fs assms(7) by (rule scan_file_mismatch)
  then have scan: "scan_files True 1 (pre @ f # post) ?st0 []
           = (Inl (ColumnMismatchError (src_name f)), map src_name pre @ [src_name f])"
    using pre by simp
  then show ?thesis
    using assms(1,2) by (simp add: worker_process_files_def)
qed

lemmas header_eval =
  extract_headers_def iter_rows_def column_name_def header_part_def strip_def
  replace_def is_space_def ustr_def Let_def

lemmas ex_file_eval = ex_file_def ex_wb_def

lemma ex_sorted_abc: "sort_key src_path [fa, fb, fc] = [fa] @ fb # [fc]"
  by (simp add: fa_def fb_def fc_def ex_file_def ustr_def)

lemma ex_sigs_a: "sigs_of 1 [fa] = [[ustr ''Name'', ustr ''Role'']]"
  by (simp add: sigs_of_def List.map_filter_simps file_sig_def fa_def ex_file_eval
      header_eval)

lemma ex_sig_b: "file_sig 1 fb = Some [ustr ''Name'', ustr ''Job'']"
  by (simp add: file_sig_def fb_def ex_file_eval header_eval)

theorem strict_mode_fail_fast_witness:
  "scan_files True 1 [fa, fb, fc] \<lparr>buckets = [], first_sig_standard = None\<rparr> []
     = (Inl (ColumnMismatchError (ustr ''b.xlsx'')), [ustr ''a.xlsx'', ustr ''b.xlsx''])
   \<and> worker_process_files ex_ext (ex_cfg Standard 1) [fa, fb, fc]
     = Failed (ColumnMismatchError (ustr ''b.xlsx''))"
proof -
  have 1: "curr_mode (ex_cfg Standard 1) = Standard" by (simp add: ex_cfg_def)
  have 3: "\<forall>g \<in> set [fa]. content g \<noteq> None" by (simp add: fa_def ex_file_def)
  have 4: "sigs_of 1 [fa] \<noteq> []" using ex_sigs_a by simp
  have 5: "\<forall>s \<in> set (sigs_of 1 [fa]). s = hd (sigs_of 1 [fa])" using ex_sigs_a by simp
  have 7: "[ustr ''Name'', ustr ''Job''] \<noteq> hd (sigs_of 1 [fa])"
    using ex_sigs_a by (simp add: ustr_def)
  have n: "src_name fa = ustr ''a.xlsx''" "src_name fb = ustr ''b.xlsx''"
    by (simp_all add: fa_def fb_def ex_file_def)
  show ?thesis
    using strict_mode_fail_fast [OF 1 ex_sorted_abc 3 4 5 ex_sig_b 7, of ex_ext] by (simp add: n)
qed


section \<open>Entity canonicalizer: brand rule and threshold\<close>

lemma fuzzy_inner_other:
  "k \<noteq> x \<Longrightarrow> fuzzy_inner lower ratio t a m x k = m k"
  by (simp add: fuzzy_inner_def Let_def)

lemma fuzzy_inner_mapped:
  "m k = Some v \<Longrightarrow> fuzzy_inner lower ratio t a m x k = Some v"
  by (cases "k = x") (auto simp: fuzzy_inner_def Let_def)

lemma fold_inner_other:
  "k \<notin> set xs \<Longrightarrow> foldl (fuzzy_inner lower ratio t a) m xs k = m k"
  by (induction xs arbitrary: m) (simp_all add: fuzzy_inner_other)

lemma fold_inner_mapped:
  "m k = Some v \<Longrightarrow> foldl (fuzzy_inner lower ratio t a) m xs k = Some v"
  by (induction xs arbitrary: m) (simp_all add: fuzzy_inner_mapped)

lemma brand_kept:
  "is_brand (lower v) \<Longrightarrow> m v = Some SCHNEIDER_ELECTRIC \<Longrightarrow>
   fuzzy_outer lower ratio t uv m v = Some SCHNEIDER_ELECTRIC"
proof (induction uv arbitrary: m)
  case Nil
  then show ?case by simp
next
  case (Cons a uv)
  have "a \<noteq> v" if "\<not> is_brand (lower a)" using that Cons.prems(1) by auto
  then show ?case
    using Cons by (auto simp: fold_inner_mapped)
qed

lemma brand_mapped:
  "v \<in> set uv \<Longrightarrow> is_brand (lower v) \<Longrightarrow>
   fuzzy_outer lower ratio t uv m v = Some SCHNEIDER_ELECTRIC"
proof (induction uv arbitrary: m)
  case Nil
  then show ?case by simp
next
  case (Cons a uv)
  show ?case
  proof (cases "a = v")
    case True
    then show ?thesis using Cons.prems(2) by (simp add: brand_kept)
  next
    case False
    then have "v \<in> set uv" using Cons.prems(1) by simp
    then show ?thesis using Cons.IH Cons.prems(2) by simp
  qed
qed

text \<open>
  Claim C6. Every value of the column that contains the brand keyword "schneider" or
  equals "se" or "s.e." (after lower-casing) is mapped to "Schneider Electric",
  whatever the similarity function and the threshold are and whatever shorter values
  come before it: the brand test precedes the prefix rule and the fuzzy score.
\<close>

theorem brand_override_precedence:
  assumes "v \<in> set unique_vals"
    and "contains (lower v) (ustr ''schneider'') \<or> lower v = ustr ''se'' \<or> lower v = ustr ''s.e.''"
  shows "fuzzy_outer lower ratio (threshold * 100) unique_vals Map.empty v
           = Some SCHNEIDER_ELECTRIC"
  using assms by (intro brand_mapped) (auto simp: is_brand_def)

lemma ex_lower_ascii [simp]: "ex_lower [] = []" "ex_lower (c # s) = (if 65 \<le> c \<and> c \<le> 90 then c + 32 else c) # ex_lower s"
  by (simp_all add: ex_lower_def)

theorem brand_override_precedence_witness:
  "fuzzy_outer ex_lower (\<lambda>a b. 100) (0.85 * 100) [ustr ''Schneide'', ustr ''Schneider'']
     Map.empty (ustr ''Schneider'') = Some SCHNEIDER_ELECTRIC"
proof -
  have 1: "ustr ''Schneider'' \<in> set [ustr ''Schneide'', ustr ''Schneider'']" by simp
  have 2: "contains (ex_lower (ustr ''Schneider'')) (ustr ''schneider'')
           \<or> ex_lower (ustr ''Schneider'') = ustr ''se''
           \<or> ex_lower (ustr ''Schneider'') = ustr ''s.e.''"
    by (simp add: ustr_def startswith_def)
  show ?thesis
    using brand_override_precedence
      [of "ustr ''Schneider''" "[ustr ''Schneide'', ustr ''Schneider'']" ex_lower
          "\<lambda>a b. 100" "0.85"] 1 2
    by blast
qed

lemma fuzzy_inner_at:
  assumes "m l = None" "\<not> is_brand (lower l)" "\<not> startswith (lower l) (lower s)"
    and "\<not> real (length s) / real (length l) < 0.6"
  shows "fuzzy_inner lower ratio t s m l l = (if ratio (lower s) (lower l) \<ge> t then Some s else None)"
  using assms by (simp add: fuzzy_inner_def Let_def)

lemma fold_inner_at:
  assumes "l \<in> set xs" "distinct xs" "m l = None" "\<not> is_brand (lower l)"
    "\<not> startswith (lower l) (lower s)" "\<not> real (length s) / real (length l) < 0.6"
  shows "foldl (fuzzy_inner lower ratio t s) m xs l
           = (if ratio (lower s) (lower l) \<ge> t then Some s else None)"
proof -
  obtain ys zs where xs: "xs = ys @ l # zs" using assms(1) by (auto simp: in_set_conv_decomp)
  then have ny: "l \<notin> set ys" and nz: "l \<notin> set zs" using assms(2) by auto
  let ?m1 = "foldl (fuzzy_inner lower ratio t s) m ys"
  have m1: "?m1 l = None" using ny assms(3) by (simp add: fold_inner_other)
  have "foldl (fuzzy_inner lower ratio t s) m xs l
          = foldl (fuzzy_inner lower ratio t s) (fuzzy_inner lower ratio t s ?m1 l) zs l"
    by (simp add: xs)
  also have "\<dots> = fuzzy_inner lower ratio t s ?m1 l l" using nz by (rule fold_inner_other)
  also have "\<dots> = (if ratio (lower s) (lower l) \<ge> t then Some s else None)"
    using m1 assms(4,5,6) by (rule fuzzy_inner_at)
  finally show ?thesis .
qed

lemma fuzzy_inner_target:
  assumes "a \<noteq> s" "\<not> is_brand (lower l)"
  shows "fuzzy_inner lower ratio t a m x l = Some s \<longleftrightarrow> m l = Some s"
  using assms by (cases "x = l") (auto simp: fuzzy_inner_def Let_def)

lemma fold_inner_target:
  assumes "a \<noteq> s" "\<not> is_brand (lower l)"
  shows "foldl (fuzzy_inner lower ratio t a) m xs l = Some s \<longleftrightarrow> m l = Some s"
  using assms by (induction xs arbitrary: m) (simp_all add: fuzzy_inner_target)

lemma fuzzy_outer_target:
  assumes "s \<notin> set uv" "\<not> is_brand (lower l)" "l \<noteq> s"
  shows "fuzzy_outer lower ratio t uv m l = Some s \<longleftrightarrow> m l = Some s"
  using assms
proof (induction uv arbitrary: m)
  case Nil
  then show ?case by simp
next
  case (Cons a uv)
  then have as: "a \<noteq> s"
    and IH: "\<And>m. fuzzy_outer lower ratio t uv m l = Some s \<longleftrightarrow> m l = Some s"
    by auto
  define m' where "m' =
    (if is_brand (lower a) then m(a \<mapsto> SCHNEIDER_ELECTRIC)
     else if m a \<noteq> None then m
     else if length a < 2 then m(a \<mapsto> a)
     else foldl (fuzzy_inner lower ratio t a) (m(a \<mapsto> a)) uv)"
  have step: "fuzzy_outer lower ratio t (a # uv) m = fuzzy_outer lower ratio t uv m'"
    by (simp add: m'_def)
  have nb: "a \<noteq> l" if "is_brand (lower a)" using that Cons.prems(2) by auto
  have upd: "(m(a \<mapsto> a)) l = Some s \<longleftrightarrow> m l = Some s" if "m a = None"
    using that as Cons.prems(3) by (cases "a = l") auto
  have "m' l = Some s \<longleftrightarrow> m l = Some s"
    using nb upd as Cons.prems(2)
    by (auto simp: m'_def fold_inner_target)
  then show ?case by (simp only: step IH)
qed

text \<open>
  Claim C5. When the outer loop reaches a value \<open>s\<close> that it treats as a candidate
  (unassigned, no brand value, at least two characters) and \<open>l\<close> is a later value, still
  unassigned, that is no brand value, does not start with \<open>s\<close> and passes the 0.6
  length-ratio floor, then the finished mapping sends \<open>l\<close> to \<open>s\<close> exactly when the
  similarity ratio is at least \<open>rf_threshold\<close>, the product \<open>threshold * 100\<close> as the
  program computed it. For the threshold 0.85 that product is 85.0: a ratio of 85
  merges, a ratio of 84 does not.
\<close>

theorem threshold_boundary:
  assumes "distinct (s # later)" and "l \<in> set later"
    and "mapping s = None" and "mapping l = None"
    and "\<not> is_brand (lower s)" and "2 \<le> length s"
    and "\<not> is_brand (lower l)" and "\<not> startswith (lower l) (lower s)"
    and "\<not> real (length s) / real (length l) < 0.6"
  shows "fuzzy_outer lower ratio rf_threshold (s # later) mapping l = Some s
           \<longleftrightarrow> ratio (lower s) (lower l) \<ge> rf_threshold"
proof -
  let ?t = "rf_threshold"
  let ?m0 = "mapping(s \<mapsto> s)"
  let ?m1 = "foldl (fuzzy_inner lower ratio ?t s) ?m0 later"
  have ls: "l \<noteq> s" and ns: "s \<notin> set later" and dl: "distinct later"
    using assms(1,2) by auto
  have "fuzzy_outer lower ratio ?t (s # later) mapping = fuzzy_outer lower ratio ?t later ?m1"
    using assms(3,5,6) by simp
  then have "fuzzy_outer lower ratio ?t (s # later) mapping l = Some s \<longleftrightarrow> ?m1 l = Some s"
    using fuzzy_outer_target [of s later lower l ratio ?t ?m1] ns assms(7) ls by simp
  moreover have "?m1 l = (if ratio (lower s) (lower l) \<ge> ?t then Some s else None)"
    using fold_inner_at [of l later ?m0 lower s ratio ?t] assms(2,4,7,8,9) dl ls by simp
  ultimately show ?thesis by simp
qed

theorem threshold_boundary_witness:
  "fuzzy_outer ex_lower (\<lambda>a b. 85) 85 [ustr ''acme'', ustr ''acmy''] Map.empty
     (ustr ''acmy'') = Some (ustr ''acme'')
   \<and> fuzzy_outer ex_lower (\<lambda>a b. 84) 85 [ustr ''acme'', ustr ''acmy''] Map.empty
     (ustr ''acmy'') \<noteq> Some (ustr ''acme'')"
proof -
  have h: "distinct [ustr ''acme'', ustr ''acmy'']" "ustr ''acmy'' \<in> set [ustr ''acmy'']"
    "Map.empty (ustr ''acme'') = (None :: ustring option)"
    "Map.empty (ustr ''acmy'') = (None :: ustring option)"
    "\<not> is_brand (ex_lower (ustr ''acme''))" "2 \<le> length (ustr ''acme'')"
    "\<not> is_brand (ex_lower (ustr ''acmy''))"
    "\<not> startswith (ex_lower (ustr ''acmy'')) (ex_lower (ustr ''acme''))"
    "\<not> real (length (ustr ''acme'')) / real (length (ustr ''acmy'')) < 0.6"
    by (simp_all add: ustr_def is_brand_def startswith_def)
  have "fuzzy_outer ex_lower (\<lambda>a b. 85) 85 [ustr ''acme'', ustr ''acmy''] Map.empty
     (ustr ''acmy'') = Some (ustr ''acme'')"
    using threshold_boundary
      [of "ustr ''acme''" "[ustr ''acmy'']" "ustr ''acmy''" Map.empty ex_lower
          "\<lambda>a b. 85" 85] h
    by simp
  moreover have "fuzzy_outer ex_lower (\<lambda>a b. 84) 85 [ustr ''acme'', ustr ''acmy''] Map.empty
     (ustr ''acmy'') \<noteq> Some (ustr ''acme'')"
    using threshold_boundary
      [of "ustr ''acme''" "[ustr ''acmy'']" "ustr ''acmy''" Map.empty ex_lower
          "\<lambda>a b. 84" 85] h
    by simp
  ultimately show ?thesis by simp
qed

section \<open>Concrete runs\<close>

lemmas row_eval =
  scan_file_rows_def scan_row_def finalize_file_rows_def finalize_row_def row_data_def
  any_cell_def clean_cell_value_def ERROR_MARKERS_def

lemmas run_eval =
  worker_process_files_def scan_file_def prompt_table_names_def auto_named_def
  finalize_export_def rebuild_def finalize_file_def finalize_h_count_def load_workbook_def
  grouping_def ex_cfg_def ex_ext_def

lemma ex_run_d:
  "worker_process_files ex_ext (ex_cfg Standard 1) [fd]
     = Dashboard [(ustr ''Main Table'',
         \<lparr>cols = [ustr ''Name''],
          rows = [[ustr ''Ann'', ustr ''d.xlsx''], [ustr ''Ann'', ustr ''d.xlsx'']]\<rparr>)]"
  by (simp add: fd_def run_eval ex_file_eval header_eval row_eval)

lemma ex_scan_d:
  "scan_file_rows 1 (ustr ''d.xlsx'') [[RStr (ustr ''Ann'')], [RStr (ustr ''Ann'')]]
     = [[ustr ''Ann'', ustr ''d.xlsx'']]"
  by (simp add: row_eval header_eval)

lemma ex_run_e:
  "worker_process_files ex_ext (ex_cfg Standard 1) [fe]
     = Dashboard [(ustr ''Main Table'',
         \<lparr>cols = [ustr ''Name''], rows = [[[], ustr ''e.xlsx'']]\<rparr>)]"
  by (simp add: fe_def run_eval ex_file_eval header_eval row_eval)

lemma ex_run_h:
  "worker_process_files ex_ext (ex_cfg Normal 2) [fh]
     = Dashboard [(ustr ''Main Table'',
         \<lparr>cols = [ustr ''A''],
          rows = [[ustr ''x'', ustr ''h.xlsx''], [ustr ''1'', ustr ''h.xlsx'']]\<rparr>)]"
  by (simp add: fh_def run_eval ex_file_eval header_eval row_eval numeral_2_eq_2)

lemma ex_scan_h:
  "fst (scan_files False 2 [fh] \<lparr>buckets = [], first_sig_standard = None\<rparr> [])
     = Inr \<lparr>buckets = [([ustr ''A - x''],
                \<lparr>cols = [ustr ''A - x''], rows = [[ustr ''1'', ustr ''h.xlsx'']],
                 files = [ustr ''h.xlsx''], header_rows = None\<rparr>)],
            first_sig_standard = None\<rparr>"
  by (simp add: fh_def scan_file_def ex_file_eval header_eval row_eval numeral_2_eq_2)

section \<open>Blank rows\<close>

lemma scan_row_blank: "\<not> any_cell r \<Longrightarrow> scan_row n fname st r = st"
  by (simp add: scan_row_def)

lemma finalize_row_blank: "\<not> any_cell r \<Longrightarrow> finalize_row n fname acc r = acc"
  by (simp add: finalize_row_def)

lemma sheet_row_blank: "\<not> any_cell r \<Longrightarrow> sheet_row n si fname sn st r = st"
  by (simp add: sheet_row_def)

lemma read_sheet_table_rows:
  "read_sheet_table lower \<lparr>max_row = m, sheet_rows = hdr # rs\<rparr> fname sn =
     (let cs = trim_cols (extract_headers \<lparr>max_row = m, sheet_rows = [hdr]\<rparr> 1)
      in \<lparr>cols = cs @ [SOURCE_FILE, SOURCE_SHEET],
          rows = snd (foldl (sheet_row (length cs) (find_sesa_idx lower cs) fname sn)
                        ({}, []) rs)\<rparr>)"
  by (simp add: read_sheet_table_def extract_headers_def iter_rows_def Let_def)

text \<open>
  Claim C8, as amended. A sheet row none of whose raw cells is truthy (every cell is
  \<open>None\<close>, the empty string, zero or \<open>False\<close>) contributes nothing: the rows that the
  scan, the finalize re-read and the community sheet reader produce are the same with
  and without it.
\<close>

theorem blank_rows_discarded:
  assumes "\<not> any_cell r"
  shows "scan_file_rows n fname (xs @ r # ys) = scan_file_rows n fname (xs @ ys)
       \<and> finalize_file_rows n fname acc (xs @ r # ys)
           = finalize_file_rows n fname acc (xs @ ys)
       \<and> read_sheet_table lower \<lparr>max_row = m, sheet_rows = hdr # xs @ r # ys\<rparr> fname sn
           = read_sheet_table lower \<lparr>max_row = m, sheet_rows = hdr # xs @ ys\<rparr> fname sn"
  using assms
  by (simp add: scan_file_rows_def finalize_file_rows_def read_sheet_table_rows
      scan_row_blank finalize_row_blank sheet_row_blank Let_def)

theorem blank_rows_discarded_witness:
  "scan_file_rows 1 (ustr ''a.xlsx'') [[RStr (ustr ''Ann'')], [RNone, RStr []]]
     = scan_file_rows 1 (ustr ''a.xlsx'') [[RStr (ustr ''Ann'')]]
   \<and> finalize_file_rows 1 (ustr ''a.xlsx'') [] [[RStr (ustr ''Ann'')], [RNone, RStr []]]
     = finalize_file_rows 1 (ustr ''a.xlsx'') [] [[RStr (ustr ''Ann'')]]"
proof -
  have "\<not> any_cell [RNone, RStr []]" by (simp add: any_cell_def)
  from blank_rows_discarded [OF this, of 1 "ustr ''a.xlsx''" "[[RStr (ustr ''Ann'')]]" "[]" "[]"]
  show ?thesis by simp
qed

text \<open>
  Claim C8 as stated fails: a row whose only cell is the error marker \<open>#N/A\<close> has
  all-empty data cells after normalization, yet it reaches the final table, with its
  provenance.
\<close>

theorem blank_normalized_row_kept:
  "row_data 1 [RStr (ustr ''#N/A'')] = [[]]
   \<and> worker_process_files ex_ext (ex_cfg Standard 1)
         [ex_file ''e.xlsx'' (ex_wb [''Name''] [[''#N/A'']])]
       = Dashboard [(ustr ''Main Table'',
           \<lparr>cols = [ustr ''Name''], rows = [[[], ustr ''e.xlsx'']]\<rparr>)]"
  using ex_run_e by (simp add: fe_def row_eval header_eval)

section \<open>Deduplication in the scan and in the finalize re-read\<close>

lemma scan_rows_invariant:
  "fst st = set (snd st) \<Longrightarrow> distinct (snd st) \<Longrightarrow>
   fst (foldl (scan_row n fname) st rs) = set (snd (foldl (scan_row n fname) st rs))
   \<and> distinct (snd (foldl (scan_row n fname) st rs))"
proof (induction rs arbitrary: st)
  case Nil
  then show ?case by simp
next
  case (Cons r rs)
  have "fst (scan_row n fname st r) = set (snd (scan_row n fname st r))
        \<and> distinct (snd (scan_row n fname st r))"
    using Cons.prems by (auto simp: scan_row_def Let_def)
  then show ?case using Cons.IH by simp
qed

lemma scan_file_rows_distinct: "distinct (scan_file_rows n fname rs)"
  using scan_rows_invariant [of "({}, [])" n fname rs] by (simp add: scan_file_rows_def)

text \<open>
  Claim C3 at a failing input. A file with the same data row twice: the scan keeps
  one of the two identical rows, the table rebuilt by \<open>finalize_export\<close> has both.
\<close>

theorem finalize_keeps_duplicate_rows:
  "scan_file_rows 1 (ustr ''d.xlsx'') [[RStr (ustr ''Ann'')], [RStr (ustr ''Ann'')]]
     = [[ustr ''Ann'', ustr ''d.xlsx'']]
   \<and> worker_process_files ex_ext (ex_cfg Standard 1)
         [ex_file ''d.xlsx'' (ex_wb [''Name''] [[''Ann''], [''Ann'']])]
       = Dashboard [(ustr ''Main Table'',
           \<lparr>cols = [ustr ''Name''],
            rows = [[ustr ''Ann'', ustr ''d.xlsx''], [ustr ''Ann'', ustr ''d.xlsx'']]\<rparr>)]"
  using ex_run_d ex_scan_d by (simp add: fd_def)

section \<open>Header rows in the finalize re-read\<close>

lemma no_header_rows_update:
  "header_rows v = None \<Longrightarrow> no_header_rows bs \<Longrightarrow> no_header_rows (AList.update k v bs)"
  by (induction bs) (auto simp: no_header_rows_def)

lemma no_header_rows_map_entry:
  "(\<And>b. header_rows (g b) = header_rows b) \<Longrightarrow> no_header_rows bs \<Longrightarrow>
   no_header_rows (AList.map_entry k g bs)"
  by (induction bs) (auto simp: no_header_rows_def)

lemma scan_file_no_header_rows:
  "scan_file is_std h f st = Inr st' \<Longrightarrow> no_header_rows (buckets st) \<Longrightarrow>
   no_header_rows (buckets st')"
  by (auto simp: scan_file_def Let_def no_header_rows_update no_header_rows_map_entry
      split: option.splits if_splits)

lemma scan_files_no_header_rows:
  "fst (scan_files is_std h fs st started) = Inr st' \<Longrightarrow> no_header_rows (buckets st) \<Longrightarrow>
   no_header_rows (buckets st')"
proof (induction fs arbitrary: st started)
  case Nil
  then show ?case by simp
next
  case (Cons f fs)
  then show ?case
    by (auto split: sum.splits dest: scan_file_no_header_rows)
qed

lemma fold_update_no_header_rows:
  fixes xs :: "(ustring list \<times> bucket) list" and acc :: "(ustring \<times> bucket) list"
  shows "no_header_rows acc \<Longrightarrow> no_header_rows xs \<Longrightarrow>
         no_header_rows (foldl (\<lambda>named_buckets (sig, data). AList.update nm data named_buckets)
                           acc xs)"
proof (induction xs arbitrary: acc)
  case Nil
  then show ?case by simp
next
  case (Cons x xs)
  obtain sig data where x: "x = (sig, data)" by (cases x)
  have "header_rows data = None" "no_header_rows xs"
    using Cons.prems(2) by (auto simp: no_header_rows_def x)
  then show ?case using Cons.IH Cons.prems(1) by (simp add: x no_header_rows_update)
qed

lemma auto_named_no_header_rows:
  assumes "no_header_rows bs"
  shows "no_header_rows (auto_named bs)"
proof -
  have e: "no_header_rows ([] :: (ustring \<times> bucket) list)"
    by (simp add: no_header_rows_def)
  show ?thesis
    unfolding auto_named_def by (rule fold_update_no_header_rows [OF e assms])
qed

text \<open>
  Claim C10. Whatever header-row count the scan used, the buckets it builds have no
  \<open>header_rows\<close> key, so for every automatically named bucket the finalize re-read
  takes one header row. In a normal-mode run over one file with two header rows
  configured, the scanned bucket has the signature \<open>A - x\<close> and one row, the final table
  the column \<open>A\<close> and two rows.
\<close>

theorem finalize_uses_one_header_row:
  "(\<forall>is_std h_count fs st.
      fst (scan_files is_std h_count fs \<lparr>buckets = [], first_sig_standard = None\<rparr> []) = Inr st
      \<longrightarrow> (\<forall>nb \<in> set (auto_named (buckets st)). finalize_h_count (snd nb) = 1))
   \<and> fst (scan_files False 2 [ex_file ''h.xlsx'' (ex_wb [''A''] [[''x''], [''1'']])]
           \<lparr>buckets = [], first_sig_standard = None\<rparr> [])
       = Inr \<lparr>buckets = [([ustr ''A - x''],
                  \<lparr>cols = [ustr ''A - x''], rows = [[ustr ''1'', ustr ''h.xlsx'']],
                   files = [ustr ''h.xlsx''], header_rows = None\<rparr>)],
              first_sig_standard = None\<rparr>
   \<and> worker_process_files ex_ext (ex_cfg Normal 2)
         [ex_file ''h.xlsx'' (ex_wb [''A''] [[''x''], [''1'']])]
       = Dashboard [(ustr ''Main Table'',
           \<lparr>cols = [ustr ''A''],
            rows = [[ustr ''x'', ustr ''h.xlsx''], [ustr ''1'', ustr ''h.xlsx'']]\<rparr>)]"
proof -
  have "finalize_h_count (snd nb) = 1"
    if "fst (scan_files is_std h_count fs \<lparr>buckets = [], first_sig_standard = None\<rparr> [])
          = Inr st"
      and "nb \<in> set (auto_named (buckets st))" for is_std h_count fs st nb
  proof -
    have "no_header_rows (buckets st)"
      using scan_files_no_header_rows [OF that(1)] by (simp add: no_header_rows_def)
    then have "no_header_rows (auto_named (buckets st))" by (rule auto_named_no_header_rows)
    then show ?thesis using that(2) by (simp add: no_header_rows_def finalize_h_count_def)
  qed
  then show ?thesis using ex_scan_h ex_run_h by (simp add: fh_def)
qed

theorem finalize_uses_one_header_row_witness:
  "finalize_h_count (snd (hd (auto_named
      [([ustr ''A - x''],
        \<lparr>cols = [ustr ''A - x''], rows = [[ustr ''1'', ustr ''h.xlsx'']],
         files = [ustr ''h.xlsx''], header_rows = None\<rparr>)]))) = 1"
proof -
  let ?b = "\<lparr>cols = [ustr ''A - x''], rows = [[ustr ''1'', ustr ''h.xlsx'']],
             files = [ustr ''h.xlsx''], header_rows = None\<rparr>"
  let ?st = "\<lparr>buckets = [([ustr ''A - x''], ?b)], first_sig_standard = None\<rparr>"
  have "fst (scan_files False 2 [fh] \<lparr>buckets = [], first_sig_standard = None\<rparr> [])
          = Inr ?st"
    by (rule ex_scan_h)
  then have "\<forall>nb \<in> set (auto_named (buckets ?st)). finalize_h_count (snd nb) = 1"
    using finalize_uses_one_header_row by blast
  moreover have "auto_named (buckets ?st) \<noteq> []" by (simp add: auto_named_def)
  ultimately have "finalize_h_count (snd (hd (auto_named (buckets ?st)))) = 1"
    using hd_in_set by blast
  then show ?thesis by simp
qed

section \<open>Community mode: a concrete run\<close>

lemmas sheet_eval =
  read_sheet_table_def trim_cols_def sheet_row_def find_sesa_idx_def startswith_def
  SOURCE_FILE_def SOURCE_SHEET_def

lemma ex_is_template: "is_community_workbook ex_lower ex_template"
  by (simp add: is_community_workbook_def ex_template_def ex_sheet_def REQUIRED_def
      iter_rows_def strip_def is_space_def ustr_def)

lemma ex_read_tables:
  "fold_err (add_sheet ex_lower ex_template (ustr ''t.xlsx'')) [] REQUIRED = Inr ex_tables"
  by (simp add: REQUIRED_def add_sheet_def ex_template_def ex_sheet_def ex_tables_def
      sheet_eval header_eval row_data_def any_cell_def clean_cell_value_def ERROR_MARKERS_def)

lemmas master_eval =
  build_master_table_def collect_sesa.simps sesa_at_def PERSONAL_INFORMATION_def SESA_def
  master_row_def agg_map_def add_entry_def entry_of_def biz_cols_def find_sesa_idx_def
  SOURCE_FILE_def SOURCE_SHEET_def strip_def is_space_def ustr_def Let_def

lemma ex_build_master: "build_master_table ex_lower ex_tables = Inr ex_master"
  by (simp add: ex_tables_def ex_master_def master_eval)


section \<open>Columns of the master table\<close>

lemma aggregates_fst:
  "fst (aggregates lower ts (ac, am)) = ac @ agg_names lower ts"
proof (induction ts arbitrary: ac am)
  case Nil
  then show ?case by (simp add: agg_names_def)
next
  case (Cons p ts)
  obtain sheet t where p: "p = (sheet, t)" by (cases p)
  show ?case
    using Cons.IH by (auto simp: p agg_names_def Let_def split: option.splits)
qed

lemma append_new_cols:
  "distinct ns \<Longrightarrow> set ns \<inter> set acc = {} \<Longrightarrow>
   foldl (\<lambda>acc c. if c \<in> set acc then acc else acc @ [c]) acc ns = acc @ ns"
  by (induction ns arbitrary: acc) auto


lemma build_master_cols:
  assumes "build_master_table lower ts = Inr master"
  shows "cols master =
           foldl (\<lambda>acc c. if c \<in> set acc then acc else acc @ [c])
             (let base_cols = (case map_of ts PERSONAL_INFORMATION of
                                 Some b \<Rightarrow> cols b | None \<Rightarrow> [SESA])
              in if find_sesa_idx lower base_cols = None then SESA # base_cols else base_cols)
             (agg_names lower ts)"
proof -
  obtain ac am where a: "aggregates lower ts ([], []) = (ac, am)"
    by (cases "aggregates lower ts ([], [])")
  have "ac = agg_names lower ts" using aggregates_fst [of lower ts "[]" "[]"] a by simp
  then show ?thesis
    using assms a by (auto simp: build_master_table_def Let_def split: sum.splits)
qed

text \<open>
  Claim C9, as amended. The column list of the master table is the column list of the
  base table, which ends with the two provenance columns (with the identifier column
  put first if the base table has none), followed by one aggregate column for each
  other sheet that has an identifier column: the provenance columns come before the
  aggregate columns. The aggregate names are supposed distinct and new.
\<close>

theorem master_columns:
  assumes "build_master_table lower ts = Inr master"
    and "map_of ts PERSONAL_INFORMATION = Some base"
    and "cols base = cs @ [SOURCE_FILE, SOURCE_SHEET]"
    and "distinct (agg_names lower ts)"
    and "set (agg_names lower ts) \<inter> set (SESA # cols base) = {}"
  shows "cols master =
           (if find_sesa_idx lower (cols base) = None then [SESA] else [])
             @ cs @ [SOURCE_FILE, SOURCE_SHEET] @ agg_names lower ts"
proof -
  let ?acc = "if find_sesa_idx lower (cols base) = None then SESA # cols base else cols base"
  have "cols master = foldl (\<lambda>acc c. if c \<in> set acc then acc else acc @ [c]) ?acc (agg_names lower ts)"
    using build_master_cols [OF assms(1)] assms(2) by (simp add: Let_def)
  also have "\<dots> = ?acc @ agg_names lower ts"
    using assms(4,5) by (intro append_new_cols) auto
  finally show ?thesis using assms(3) by simp
qed

lemma ex_unique_rows: "map (\<lambda>(k, t). (k, t\<lparr>rows := unique_rows (rows t)\<rparr>)) ex_tables = ex_tables"
  by (simp add: ex_tables_def unique_rows_def ustr_def)

lemma ex_community_run:
  "community_mode ex_ext [ex_file ''t.xlsx'' ex_template]
     = Dashboard (ex_tables @ [(ustr ''Community Master'', ex_master)])"
proof -
  have "fold_err (read_template ex_lower) [] [ex_file ''t.xlsx'' ex_template] = Inr ex_tables"
    using ex_is_template ex_read_tables by (simp add: read_template_def ex_file_def)
  moreover have "ex_tables \<noteq> []" by (simp add: ex_tables_def)
  moreover have "AList.update (ustr ''Community Master'') ex_master ex_tables
                   = ex_tables @ [(ustr ''Community Master'', ex_master)]"
    by (simp add: ex_tables_def ustr_def)
  ultimately show ?thesis
    using ex_unique_rows ex_build_master by (simp add: community_mode_def ex_ext_def)
qed

lemma ex_agg_names:
  "agg_names ex_lower ex_tables
     = [ustr ''Standards Group - Entries'', ustr ''Internal Groups - Entries'',
        ustr ''Association - Entries'', ustr ''Expertise - Entries'']"
  by (simp add: agg_names_def ex_tables_def PERSONAL_INFORMATION_def find_sesa_idx_def
      strip_def is_space_def SOURCE_FILE_def SOURCE_SHEET_def ustr_def)

lemma ex_base:
  "map_of ex_tables PERSONAL_INFORMATION
     = Some \<lparr>cols = [ustr ''SESA'', ustr ''Name''] @ [SOURCE_FILE, SOURCE_SHEET],
              rows = [[ustr ''A'', ustr ''Ann'', ustr ''t.xlsx'', ustr ''Personal Information''],
                      [ustr ''B'', ustr ''Bo'', ustr ''t.xlsx'', ustr ''Personal Information'']]\<rparr>"
  by (simp add: ex_tables_def PERSONAL_INFORMATION_def)

theorem master_columns_witness:
  "cols ex_master
     = [ustr ''SESA'', ustr ''Name'', SOURCE_FILE, SOURCE_SHEET,
        ustr ''Standards Group - Entries'', ustr ''Internal Groups - Entries'',
        ustr ''Association - Entries'', ustr ''Expertise - Entries'']"
proof -
  let ?base = "\<lparr>cols = [ustr ''SESA'', ustr ''Name''] @ [SOURCE_FILE, SOURCE_SHEET],
                 rows = [[ustr ''A'', ustr ''Ann'', ustr ''t.xlsx'', ustr ''Personal Information''],
                         [ustr ''B'', ustr ''Bo'', ustr ''t.xlsx'', ustr ''Personal Information'']]\<rparr>"
  have 3: "cols ?base = [ustr ''SESA'', ustr ''Name''] @ [SOURCE_FILE, SOURCE_SHEET]" by simp
  have 4: "distinct (agg_names ex_lower ex_tables)"
    by (simp add: ex_agg_names ustr_def)
  have 5: "set (agg_names ex_lower ex_tables) \<inter> set (SESA # cols ?base) = {}"
    by (simp add: ex_agg_names SESA_def SOURCE_FILE_def SOURCE_SHEET_def ustr_def)
  have 6: "find_sesa_idx ex_lower (cols ?base) \<noteq> None"
    by (simp add: find_sesa_idx_def strip_def is_space_def ustr_def)
  show ?thesis
    using master_columns [OF ex_build_master ex_base 3 4 5] 6 by (simp add: ex_agg_names)
qed

text \<open>
  Claim C9 as stated fails: in the master table of the example template the four
  aggregate columns come after the two provenance columns, not before them.
\<close>

theorem provenance_before_aggregates:
  "(case community_mode ex_ext [ex_file ''t.xlsx'' ex_template] of
      Dashboard ts \<Rightarrow> map_option cols (map_of ts (ustr ''Community Master''))
    | _ \<Rightarrow> None)
     = Some [ustr ''SESA'', ustr ''Name'', SOURCE_FILE, SOURCE_SHEET,
             ustr ''Standards Group - Entries'', ustr ''Internal Groups - Entries'',
             ustr ''Association - Entries'', ustr ''Expertise - Entries'']"
  by (simp add: ex_community_run ex_tables_def ex_master_def ustr_def)


section \<open>Rows of the master table\<close>










lemma collect_sesa_total:
  "\<forall>r \<in> set rs. si < length r \<Longrightarrow> \<exists>seen. collect_sesa si rs acc = Inr seen"
  by (induction rs arbitrary: acc) (auto simp: sesa_at_def)

lemma collect_all_sesa_total:
  assumes "\<forall>p \<in> set ts. \<forall>si. find_sesa_idx lower (cols (snd p)) = Some si
             \<longrightarrow> (\<forall>r \<in> set (rows (snd p)). si < length r)"
  shows "\<exists>seen. collect_all_sesa lower ts acc = Inr seen"
  using assms
proof (induction ts arbitrary: acc)
  case Nil
  then show ?case by simp
next
  case (Cons p ts)
  obtain sheet t where p: "p = (sheet, t)" by (cases p)
  show ?case
  proof (cases "find_sesa_idx lower (cols t)")
    case None
    then show ?thesis using Cons p by simp
  next
    case (Some si)
    then have "\<forall>r \<in> set (rows t). si < length r" using Cons.prems p by simp
    then obtain acc' where "collect_sesa si (rows t) acc = Inr acc'"
      using collect_sesa_total by blast
    then show ?thesis using Cons Some p by simp
  qed
qed

lemma build_master_table_returns:
  assumes "\<forall>p \<in> set ts. \<forall>si. find_sesa_idx lower (cols (snd p)) = Some si
             \<longrightarrow> (\<forall>r \<in> set (rows (snd p)). si < length r)"
  shows "\<exists>master. build_master_table lower ts = Inr master"
proof -
  obtain seen where "collect_all_sesa lower ts [] = Inr seen"
    using collect_all_sesa_total [OF assms] by blast
  then show ?thesis
    by (simp add: build_master_table_def Let_def split: prod.splits)
qed





end
